theory Spec2Isabelle
  imports Complex_Main "HOL-Library.Sublist"
begin

section \<open>JavaScript values used by the event routes\<close>

text \<open>
  The routes \<^verbatim>\<open>src/app/api/events/filter/route.ts\<close> and
  \<^verbatim>\<open>src/app/api/events/query/route.ts\<close> score, categorise, deduplicate and rank
  event candidates. Their numbers are JavaScript numbers. The only special value the
  scoring code can produce is \<open>NaN\<close> (from \<open>0 / 0\<close>), so a number is either a rational
  or \<open>NaN\<close>; the weights \<open>0.4\<close>, \<open>0.3\<close>, ... are the exact fractions and IEEE rounding
  is not modelled. Every arithmetic operation and comparison propagates \<open>NaN\<close> the way
  ECMAScript does: an operation with a \<open>NaN\<close> operand is \<open>NaN\<close>, a comparison with a
  \<open>NaN\<close> operand is false.
\<close>

datatype jsnum = Num rat | NaN

fun js_add :: "jsnum \<Rightarrow> jsnum \<Rightarrow> jsnum" where
  "js_add (Num a) (Num b) = Num (a + b)"
| "js_add _ _ = NaN"

fun js_sub :: "jsnum \<Rightarrow> jsnum \<Rightarrow> jsnum" where
  "js_sub (Num a) (Num b) = Num (a - b)"
| "js_sub _ _ = NaN"

fun js_mul :: "jsnum \<Rightarrow> jsnum \<Rightarrow> jsnum" where
  "js_mul (Num a) (Num b) = Num (a * b)"
| "js_mul _ _ = NaN"

text \<open>
  Division: \<open>0 / 0\<close> is \<open>NaN\<close>. A non-zero numerator over zero would be an infinity in
  JavaScript; the one division of the program divides the length of a filtered list by
  the length of the list it was filtered from (lemma \<open>matchingWords_le\<close> below), so a
  zero denominator always comes with a zero numerator and no infinity is needed.
\<close>

fun js_div :: "jsnum \<Rightarrow> jsnum \<Rightarrow> jsnum" where
  "js_div (Num a) (Num b) = (if b = 0 then NaN else Num (a / b))"
| "js_div _ _ = NaN"

text \<open>\<open>a > b\<close> on numbers.\<close>

fun js_gt :: "jsnum \<Rightarrow> jsnum \<Rightarrow> bool" where
  "js_gt (Num a) (Num b) = (b < a)"
| "js_gt _ _ = False"

text \<open>\<open>Math.min(a, b)\<close>.\<close>

fun js_min :: "jsnum \<Rightarrow> jsnum \<Rightarrow> jsnum" where
  "js_min (Num a) (Num b) = Num (min a b)"
| "js_min _ _ = NaN"

text \<open>The length of an array or string as a number.\<close>

definition js_length :: "'a list \<Rightarrow> jsnum" where
  "js_length xs = Num (of_nat (length xs))"

subsection \<open>Strings\<close>

text \<open>
  Strings are lists of characters; the model covers ASCII text, where
  \<open>toLowerCase\<close> maps \<open>A..Z\<close> to \<open>a..z\<close> and leaves every other character alone.
\<close>

definition toLowerChar :: "char \<Rightarrow> char" where
  "toLowerChar c =
     (case map_of (zip ''ABCDEFGHIJKLMNOPQRSTUVWXYZ'' ''abcdefghijklmnopqrstuvwxyz'') c of
        None \<Rightarrow> c
      | Some l \<Rightarrow> l)"

definition toLowerCase :: "string \<Rightarrow> string" where
  "toLowerCase s = map toLowerChar s"

text \<open>\<open>text.includes(word)\<close>: \<open>word\<close> occurs in \<open>text\<close> as a contiguous substring.\<close>

fun str_includes :: "string \<Rightarrow> string \<Rightarrow> bool" where
  "str_includes [] word = (word = [])"
| "str_includes (c # cs) word = (prefix word (c # cs) \<or> str_includes cs word)"

text \<open>The characters the regular expression class \<open>\s\<close> matches, within ASCII.\<close>

definition isSpace :: "char \<Rightarrow> bool" where
  "isSpace c = (c \<in> set [CHR '' '', CHR 0x09, CHR 0x0A, CHR 0x0B, CHR 0x0C, CHR 0x0D])"

text \<open>
  \<open>s.split(/\s+/)\<close>: the pieces of \<open>s\<close> between maximal runs of whitespace. A run at
  the start or at the end leaves an empty piece there, and the empty string splits into
  one empty piece. The flag records that the previous character was whitespace.
\<close>

fun split_go :: "bool \<Rightarrow> string \<Rightarrow> string \<Rightarrow> string list" where
  "split_go ws cur [] = [cur]"
| "split_go ws cur (c # cs) =
     (if isSpace c then (if ws then split_go True cur cs else cur # split_go True [] cs)
      else split_go False (cur @ [c]) cs)"

definition split_ws :: "string \<Rightarrow> string list" where
  "split_ws s = split_go False [] s"

text \<open>\<open>s.replace(/[^a-z]/g, '')\<close>: only the lower-case letters of \<open>s\<close> stay.\<close>

definition isLowerLetter :: "char \<Rightarrow> bool" where
  "isLowerLetter c = (c \<in> set ''abcdefghijklmnopqrstuvwxyz'')"

definition stripNonLetters :: "string \<Rightarrow> string" where
  "stripNonLetters s = filter isLowerLetter s"

text \<open>
  An optional string field. \<open>x || ''\<close> is the string, or the empty string when the
  field is missing; a field is truthy when it is present and not empty.
\<close>

definition orEmpty :: "string option \<Rightarrow> string" where
  "orEmpty x = (case x of None \<Rightarrow> [] | Some s \<Rightarrow> s)"

definition truthy :: "string option \<Rightarrow> bool" where
  "truthy x = (case x of None \<Rightarrow> False | Some s \<Rightarrow> s \<noteq> [])"

text \<open>\<open>[...new Set(xs)]\<close>: the first occurrence of every element, in order.\<close>

definition uniqueInOrder :: "string list \<Rightarrow> string list" where
  "uniqueInOrder xs = foldl (\<lambda>acc x. if x \<in> set acc then acc else acc @ [x]) [] xs"

text \<open>
  \<open>xs.sort(cmp)\<close>. ECMAScript's sort is stable; an element \<open>a\<close> goes behind \<open>b\<close> when
  \<open>cmp(a, b) > 0\<close>, and a comparator result of \<open>NaN\<close> counts as \<open>0\<close>. For a consistent
  comparator the result is the stable insertion sort below. The comparators of the
  routes are differences of scores, which are either all numbers or all \<open>NaN\<close> within
  one call, hence consistent.
\<close>

fun js_insert :: "('a \<Rightarrow> 'a \<Rightarrow> jsnum) \<Rightarrow> 'a \<Rightarrow> 'a list \<Rightarrow> 'a list" where
  "js_insert cmp x [] = [x]"
| "js_insert cmp x (y # ys) =
     (if js_gt (cmp x y) (Num 0) then y # js_insert cmp x ys else x # y # ys)"

definition js_sort :: "('a \<Rightarrow> 'a \<Rightarrow> jsnum) \<Rightarrow> 'a list \<Rightarrow> 'a list" where
  "js_sort cmp xs = foldr (js_insert cmp) xs []"

text \<open>
  \<open>xs.slice(0, n)\<close> for an integer \<open>n\<close>: the first \<open>n\<close> elements, and for a negative
  \<open>n\<close> all but the last \<open>-n\<close>.
\<close>

definition js_slice0 :: "'a list \<Rightarrow> int \<Rightarrow> 'a list" where
  "js_slice0 xs n = (if n < 0 then take (nat (int (length xs) + n)) xs else take (nat n) xs)"

section \<open>Data model\<close>

text \<open>
  \<open>RawEvent\<close> (\<^verbatim>\<open>src/lib/services/apify.ts\<close>). The routes receive events as \<open>any\<close>
  and guard every read of \<open>title\<close>, \<open>description\<close> and \<open>location\<close> against a missing
  value, so these fields are optional here too. The routes also read \<open>event.eventType\<close>,
  a field a candidate may or may not carry. \<open>rawData\<close> is passed through unread.
\<close>

record RawEvent =
  id_of :: string
  title :: "string option"
  description :: "string option"
  location :: "string option"
  dateTime :: "string option"
  platform :: string
  sourceUrl :: string
  rawData :: string
  imageUrl :: "string option"
  organizer :: "string option"
  price :: "string option"
  ageRestriction :: "string option"
  tags :: "string list option"
  eventType :: "string option"

text \<open>
  \<open>FilteredEvent\<close> (\<^verbatim>\<open>filter/route.ts\<close>), also the shape of the objects
  \<open>scoreAndRankEvents\<close> builds: the candidate's own fields (the spread \<open>...event\<close>)
  with the computed fields written over them.
\<close>

record FilteredEvent = RawEvent +
  relevanceScore :: jsnum
  isStudentFriendly :: bool
  studentFriendlinessScore :: jsnum
  keywords_of :: "string list"

text \<open>\<open>ScrapingResult\<close> (\<^verbatim>\<open>src/lib/services/apify.ts\<close>); \<open>scrapedAt\<close> is a time stamp.\<close>

record ScrapingResult =
  success :: bool
  events :: "RawEvent list"
  error :: "string option"
  result_platform :: string
  result_query :: string
  result_location :: string
  scrapedAt :: nat

section \<open>Scoring\<close>

text \<open>The text every matching stage reads: \<open>`${event.title || ''} ${event.description || ''}`.toLowerCase()\<close>.\<close>

definition eventText :: "RawEvent \<Rightarrow> string" where
  "eventText event = toLowerCase (orEmpty (title event) @ '' '' @ orEmpty (description event))"

definition queryWords :: "string \<Rightarrow> string list" where
  "queryWords query = filter (\<lambda>word. length word > 2) (split_ws (toLowerCase query))"

definition matchingWords :: "RawEvent \<Rightarrow> string \<Rightarrow> string list" where
  "matchingWords event query = filter (\<lambda>word. str_includes (eventText event) word) (queryWords query)"

text \<open>
  The first update of \<open>score\<close> in \<open>calculateRelevanceScore\<close>:
  \<open>(matchingWords.length / queryWords.length) * 0.4\<close>, the same in both routes.
\<close>

definition overlapTerm :: "RawEvent \<Rightarrow> string \<Rightarrow> jsnum" where
  "overlapTerm event query =
     js_mul (js_div (js_length (matchingWords event query)) (js_length (queryWords query)))
       (Num (4 / 10))"

text \<open>The event-type bonus and the content-quality bonus, the same in both routes.\<close>

definition addTypeBonus :: "RawEvent \<Rightarrow> string option \<Rightarrow> jsnum \<Rightarrow> jsnum" where
  "addTypeBonus event eventTypeHint score =
     (if truthy eventTypeHint \<and> truthy (eventType event) then
        (if eventType event = eventTypeHint then js_add score (Num (2 / 10)) else score)
      else score)"

definition addQualityBonus :: "RawEvent \<Rightarrow> jsnum \<Rightarrow> jsnum" where
  "addQualityBonus event score =
     (let score = (if truthy (description event) \<and> length (orEmpty (description event)) > 50
                   then js_add score (Num (1 / 10)) else score);
          score = (if truthy (imageUrl event) then js_add score (Num (5 / 100)) else score);
          score = (if truthy (dateTime event) then js_add score (Num (5 / 100)) else score)
      in score)"

text \<open>\<open>calculateRelevanceScore\<close> of \<^verbatim>\<open>filter/route.ts\<close>: the location is optional.\<close>

definition calculateRelevanceScore ::
  "RawEvent \<Rightarrow> string \<Rightarrow> string option \<Rightarrow> string option \<Rightarrow> jsnum" where
  "calculateRelevanceScore event originalQuery locationHint eventTypeHint =
     (let score = Num 0;
          score = js_add score (overlapTerm event originalQuery);
          score = (if truthy locationHint \<and> truthy (location event) then
                     (if str_includes (toLowerCase (orEmpty (location event)))
                           (toLowerCase (orEmpty locationHint))
                      then js_add score (Num (3 / 10)) else score)
                   else score);
          score = addTypeBonus event eventTypeHint score;
          score = addQualityBonus event score
      in js_min score (Num 1))"

text \<open>\<open>calculateRelevanceScore\<close> of \<^verbatim>\<open>query/route.ts\<close>: the location is a string.\<close>

definition calculateRelevanceScore_query ::
  "RawEvent \<Rightarrow> string \<Rightarrow> string \<Rightarrow> string option \<Rightarrow> jsnum" where
  "calculateRelevanceScore_query event query locationHint eventTypeHint =
     (let score = Num 0;
          score = js_add score (overlapTerm event query);
          score = (if truthy (location event) then
                     (if str_includes (toLowerCase (orEmpty (location event)))
                           (toLowerCase locationHint)
                      then js_add score (Num (3 / 10)) else score)
                   else score);
          score = addTypeBonus event eventTypeHint score;
          score = addQualityBonus event score
      in js_min score (Num 1))"

text \<open>\<open>if (cond) score += w\<close>.\<close>

definition bump :: "bool \<Rightarrow> rat \<Rightarrow> jsnum \<Rightarrow> jsnum" where
  "bump cond w score = (if cond then js_add score (Num w) else score)"

text \<open>\<open>calculateStudentFriendlinessScore\<close>, the same text in both routes.\<close>

definition calculateStudentFriendlinessScore :: "RawEvent \<Rightarrow> jsnum" where
  "calculateStudentFriendlinessScore event =
     (let t = eventText event;
          score = Num 0;
          score = bump (str_includes t ''student'') (3 / 10) score;
          score = bump (str_includes t ''study abroad'') (3 / 10) score;
          score = bump (str_includes t ''international'') (2 / 10) score;
          score = bump (str_includes t ''university'' \<or> str_includes t ''college'') (2 / 10) score;
          score = bump (str_includes t ''campus'') (2 / 10) score;
          score = bump (str_includes t ''18+'' \<or> str_includes t ''21+'') (1 / 10) score;
          score = bump (str_includes t ''all ages'' \<or> str_includes t ''family'') (1 / 10) score;
          score = bump (str_includes t ''free'' \<or> str_includes t ''no cost'') (2 / 10) score;
          score = bump (str_includes t ''cheap'' \<or> str_includes t ''affordable'') (1 / 10) score;
          score = bump (str_includes t ''budget'') (1 / 10) score;
          score = bump (str_includes t ''meet'' \<or> str_includes t ''social'') (1 / 10) score;
          score = bump (str_includes t ''networking'') (1 / 10) score;
          score = bump (str_includes t ''party'' \<or> str_includes t ''celebration'') (1 / 10) score
      in js_min score (Num 1))"

section \<open>Categories and keywords\<close>

text \<open>\<open>categorizeEventByKeywords\<close>, the same text in both routes: a chain of early returns.\<close>

definition categorizeEventByKeywords :: "RawEvent \<Rightarrow> string" where
  "categorizeEventByKeywords event =
     (let t = eventText event in
      if str_includes t ''party'' \<or> str_includes t ''meetup'' \<or> str_includes t ''social''
        then ''social''
      else if str_includes t ''workshop'' \<or> str_includes t ''seminar'' \<or> str_includes t ''lecture''
        then ''academic''
      else if str_includes t ''museum'' \<or> str_includes t ''art'' \<or> str_includes t ''culture''
        then ''cultural''
      else if str_includes t ''sport'' \<or> str_includes t ''fitness'' \<or> str_includes t ''outdoor''
        then ''sports''
      else if str_includes t ''bar'' \<or> str_includes t ''club'' \<or> str_includes t ''nightlife''
        then ''nightlife''
      else if str_includes t ''food'' \<or> str_includes t ''restaurant'' \<or> str_includes t ''dining''
        then ''food''
      else if str_includes t ''concert'' \<or> str_includes t ''show'' \<or> str_includes t ''performance''
        then ''entertainment''
      else if str_includes t ''hiking'' \<or> str_includes t ''park'' \<or> str_includes t ''nature''
        then ''outdoor''
      else if str_includes t ''skill'' \<or> str_includes t ''diy'' \<or> str_includes t ''hands-on''
        then ''workshop''
      else if str_includes t ''networking'' \<or> str_includes t ''professional'' \<or> str_includes t ''business''
        then ''networking''
      else ''general'')"

text \<open>
  The categorizer as the specification words it (section 4.3): a fixed, ordered list of
  keyword groups, the first group with a keyword in the text gives the category, and
  \<open>general\<close> is the answer when no group matches.
\<close>

definition documentedRules :: "(string \<times> string list) list" where
  "documentedRules =
     [(''social'', [''party'', ''meetup'', ''social'']),
      (''academic'', [''workshop'', ''seminar'', ''lecture'']),
      (''cultural'', [''museum'', ''art'', ''culture'']),
      (''sports'', [''sport'', ''fitness'', ''outdoor'']),
      (''nightlife'', [''bar'', ''club'', ''nightlife'']),
      (''food'', [''food'', ''restaurant'', ''dining'']),
      (''entertainment'', [''concert'', ''show'', ''performance'']),
      (''outdoor'', [''hiking'', ''park'', ''nature'']),
      (''workshop'', [''skill'', ''diy'', ''hands-on'']),
      (''networking'', [''networking'', ''professional'', ''business''])]"

fun firstMatch :: "(string \<times> string list) list \<Rightarrow> string \<Rightarrow> string" where
  "firstMatch [] t = ''general''"
| "firstMatch ((category, kws) # rules) t =
     (if list_ex (str_includes t) kws then category else firstMatch rules t)"

definition categorize_spec :: "RawEvent \<Rightarrow> string" where
  "categorize_spec event = firstMatch documentedRules (eventText event)"

text \<open>\<open>if (text.includes(word)) keywords.push(tag)\<close>.\<close>

definition pushIf :: "string \<Rightarrow> string \<Rightarrow> string \<Rightarrow> string list \<Rightarrow> string list" where
  "pushIf t word tag ks = (if str_includes t word then ks @ [tag] else ks)"

text \<open>\<open>extractKeywordsFromEvent\<close>, the same text in both routes.\<close>

definition extractKeywordsFromEvent :: "RawEvent \<Rightarrow> string list" where
  "extractKeywordsFromEvent event =
     (let t = eventText event;
          ks = [];
          ks = pushIf t ''party'' ''party'' ks;
          ks = pushIf t ''concert'' ''concert'' ks;
          ks = pushIf t ''workshop'' ''workshop'' ks;
          ks = pushIf t ''meetup'' ''meetup'' ks;
          ks = pushIf t ''bar'' ''bar'' ks;
          ks = pushIf t ''club'' ''club'' ks;
          ks = pushIf t ''restaurant'' ''restaurant'' ks;
          ks = pushIf t ''dance'' ''dancing'' ks;
          ks = pushIf t ''drink'' ''drinking'' ks;
          ks = pushIf t ''eat'' ''food'' ks;
          ks = pushIf t ''sightsee'' ''sightseeing'' ks;
          ks = pushIf t ''tour'' ''tour'' ks;
          ks = pushIf t ''tonight'' ''tonight'' ks;
          ks = pushIf t ''weekend'' ''weekend'' ks;
          ks = pushIf t ''this week'' ''this week'' ks;
          ks = pushIf t ''student'' ''student'' ks;
          ks = pushIf t ''study abroad'' ''study abroad'' ks;
          ks = pushIf t ''international'' ''international'' ks
      in uniqueInOrder ks)"

section \<open>Deduplication\<close>

text \<open>
  \<open>events.filter(...)\<close> with the closure's \<open>seen\<close> set: an event stays when its key is
  new, and its key is then added to the set.
\<close>

fun filterUnseen :: "('a \<Rightarrow> string) \<Rightarrow> string set \<Rightarrow> 'a list \<Rightarrow> 'a list" where
  "filterUnseen key seen [] = []"
| "filterUnseen key seen (event # rest) =
     (if key event \<in> seen then filterUnseen key seen rest
      else event # filterUnseen key (insert (key event) seen) rest)"

text \<open>
  The key of \<^verbatim>\<open>query/route.ts\<close>:
  \<open>event.title?.toLowerCase().replace(/[^a-z]/g, '') || ''\<close>, the same for the
  location, joined by an underscore.
\<close>

definition normalizedField :: "string option \<Rightarrow> string" where
  "normalizedField x = (case x of None \<Rightarrow> [] | Some s \<Rightarrow> stripNonLetters (toLowerCase s))"

definition dedupKey :: "RawEvent \<Rightarrow> string" where
  "dedupKey event = normalizedField (title event) @ ''_'' @ normalizedField (location event)"

definition removeDuplicateEvents :: "RawEvent list \<Rightarrow> RawEvent list" where
  "removeDuplicateEvents evs = filterUnseen dedupKey {} evs"

text \<open>
  The key of the scrape route (\<^verbatim>\<open>src/unnamed/part_000\<close>): a template string over
  \<open>event.title?.toLowerCase().replace(/[^a-z]/g, '')\<close> and
  \<open>event.location?.toLowerCase()\<close>, where a missing field prints as \<open>undefined\<close>.
\<close>

definition dedupKey_scrape :: "RawEvent \<Rightarrow> string" where
  "dedupKey_scrape event =
     (case title event of None \<Rightarrow> ''undefined'' | Some s \<Rightarrow> stripNonLetters (toLowerCase s))
     @ ''_'' @
     (case location event of None \<Rightarrow> ''undefined'' | Some s \<Rightarrow> toLowerCase s)"

definition removeDuplicateEvents_scrape :: "RawEvent list \<Rightarrow> RawEvent list" where
  "removeDuplicateEvents_scrape evs = filterUnseen dedupKey_scrape {} evs"

section \<open>Scoring stages\<close>

text \<open>
  The object both scoring stages build for a candidate:
  \<open>{...event, relevanceScore, isStudentFriendly: studentFriendlinessScore > 0.6,
  studentFriendlinessScore, eventType: eventType || categorizeEventByKeywords(event),
  keywords: extractKeywordsFromEvent(event)}\<close>.
\<close>

definition scoredObject :: "RawEvent \<Rightarrow> jsnum \<Rightarrow> jsnum \<Rightarrow> string option \<Rightarrow> FilteredEvent" where
  "scoredObject event relevance friendliness eventTypeHint =
     \<lparr> id_of = id_of event, title = title event, description = description event,
       location = location event, dateTime = dateTime event, platform = platform event,
       sourceUrl = sourceUrl event, rawData = rawData event, imageUrl = imageUrl event,
       organizer = organizer event, price = price event,
       ageRestriction = ageRestriction event, tags = tags event,
       eventType = (if truthy eventTypeHint then eventTypeHint
                    else Some (categorizeEventByKeywords event)),
       relevanceScore = relevance,
       isStudentFriendly = js_gt friendliness (Num (6 / 10)),
       studentFriendlinessScore = friendliness,
       keywords_of = extractKeywordsFromEvent event \<rparr>"

subsection \<open>The filter path: \<open>filterAndRankEvents\<close>\<close>

text \<open>
  The request body's \<open>events\<close> is any JSON array, so an entry can be \<open>null\<close>; reading
  \<open>event.title\<close> of it throws a \<open>TypeError\<close>. An entry is \<open>None\<close> for \<open>null\<close> and an
  event object otherwise.
\<close>

datatype js_error = TypeError

text \<open>The body of the \<open>try\<close> block, from the current \<open>filteredEvents\<close> to the next.\<close>

definition tryBlock ::
  "RawEvent option \<Rightarrow> string \<Rightarrow> string option \<Rightarrow> string option \<Rightarrow> FilteredEvent list
     \<Rightarrow> js_error + FilteredEvent list" where
  "tryBlock candidate originalQuery locationHint eventTypeHint filteredEvents =
     (case candidate of
        None \<Rightarrow> Inl TypeError
      | Some event \<Rightarrow>
          (let relevance = calculateRelevanceScore event originalQuery locationHint eventTypeHint;
               friendliness = calculateStudentFriendlinessScore event
           in if js_gt relevance (Num (3 / 10))
              then Inr (filteredEvents @ [scoredObject event relevance friendliness eventTypeHint])
              else Inr filteredEvents))"

text \<open>
  The \<open>for\<close> loop. The \<open>catch\<close> clause logs the error and continues with the next
  candidate, \<open>filteredEvents\<close> unchanged.
\<close>

fun forLoop ::
  "RawEvent option list \<Rightarrow> string \<Rightarrow> string option \<Rightarrow> string option \<Rightarrow> FilteredEvent list
     \<Rightarrow> js_error + FilteredEvent list" where
  "forLoop [] originalQuery locationHint eventTypeHint filteredEvents = Inr filteredEvents"
| "forLoop (candidate # rest) originalQuery locationHint eventTypeHint filteredEvents =
     (case tryBlock candidate originalQuery locationHint eventTypeHint filteredEvents of
        Inl caught \<Rightarrow> forLoop rest originalQuery locationHint eventTypeHint filteredEvents
      | Inr filteredEvents' \<Rightarrow> forLoop rest originalQuery locationHint eventTypeHint filteredEvents')"

text \<open>The comparator \<open>(a, b) => b.relevanceScore - a.relevanceScore\<close>.\<close>

definition byRelevance :: "FilteredEvent \<Rightarrow> FilteredEvent \<Rightarrow> jsnum" where
  "byRelevance a b = js_sub (relevanceScore b) (relevanceScore a)"

definition filterAndRankEvents ::
  "RawEvent option list \<Rightarrow> string \<Rightarrow> string option \<Rightarrow> string option
     \<Rightarrow> js_error + FilteredEvent list" where
  "filterAndRankEvents candidates originalQuery locationHint eventTypeHint =
     (case forLoop candidates originalQuery locationHint eventTypeHint [] of
        Inl thrown \<Rightarrow> Inl thrown
      | Inr filteredEvents \<Rightarrow> Inr (js_sort byRelevance filteredEvents))"

subsection \<open>The rank path: \<open>scoreAndRankEvents\<close> and the route around it\<close>

text \<open>
  \<open>scoreAndRankEvents\<close> and the functions it calls have the same text in
  \<^verbatim>\<open>query/route.ts\<close> (lines 130 to 368) and in the second route of
  \<^verbatim>\<open>filter/route.ts\<close> (lines 549 to 787). First the callback of \<open>events.map\<close>.
\<close>

definition scoreEvent :: "string \<Rightarrow> string \<Rightarrow> string option \<Rightarrow> RawEvent \<Rightarrow> FilteredEvent" where
  "scoreEvent query locationHint eventTypeHint event =
     scoredObject event (calculateRelevanceScore_query event query locationHint eventTypeHint)
       (calculateStudentFriendlinessScore event) eventTypeHint"

text \<open>\<open>relevanceScore * 0.7 + studentFriendlinessScore * 0.3\<close> and the comparator on it.\<close>

definition combinedScore :: "FilteredEvent \<Rightarrow> jsnum" where
  "combinedScore a =
     js_add (js_mul (relevanceScore a) (Num (7 / 10))) (js_mul (studentFriendlinessScore a) (Num (3 / 10)))"

definition byCombinedScore :: "FilteredEvent \<Rightarrow> FilteredEvent \<Rightarrow> jsnum" where
  "byCombinedScore a b = js_sub (combinedScore b) (combinedScore a)"

definition scoreAndRankEvents ::
  "RawEvent list \<Rightarrow> string \<Rightarrow> string \<Rightarrow> string option \<Rightarrow> FilteredEvent list" where
  "scoreAndRankEvents evs query locationHint eventTypeHint =
     js_sort byCombinedScore (map (scoreEvent query locationHint eventTypeHint) evs)"

text \<open>
  The two ways the routes collect the events of the platforms:
  \<open>scrapingResults.filter((result) => result.success).flatMap((result) => result.events)\<close>
  and \<open>scrapingResults.flatMap(result => result.success ? result.events : [])\<close>
  (\<^verbatim>\<open>query/route.ts\<close>).
\<close>

definition allEvents :: "ScrapingResult list \<Rightarrow> RawEvent list" where
  "allEvents scrapingResults = concat (map events (filter success scrapingResults))"

definition allEvents_query :: "ScrapingResult list \<Rightarrow> RawEvent list" where
  "allEvents_query scrapingResults =
     concat (map (\<lambda>result. if success result then events result else []) scrapingResults)"

text \<open>
  Steps 5 to 8 of the \<open>POST\<close> handler that calls \<open>removeDuplicateEvents\<close> and
  \<open>scoreAndRankEvents\<close> (the second route in \<^verbatim>\<open>filter/route.ts\<close>, lines 441 to 498),
  from the scraping results to \<open>finalEvents\<close>: flatten, return no events when there are
  none, deduplicate, score and rank, keep the student-friendly events if there are any,
  and cut to \<open>maxResults\<close>. The arguments are the handler's \<open>scrapingResults\<close>, \<open>query\<close>,
  \<open>targetLocation\<close>, \<open>analysis.eventType\<close> and \<open>maxResults\<close>.
\<close>

definition finalEvents ::
  "ScrapingResult list \<Rightarrow> string \<Rightarrow> string \<Rightarrow> string option \<Rightarrow> int \<Rightarrow> FilteredEvent list" where
  "finalEvents scrapingResults query targetLocation analysisEventType maxResults =
     (let all = allEvents scrapingResults in
      if length all = 0 then []
      else
        (let uniqueEvents = removeDuplicateEvents all;
             scoredEvents = scoreAndRankEvents uniqueEvents query targetLocation analysisEventType;
             studentFriendlyEvents =
               filter (\<lambda>event. js_gt (studentFriendlinessScore event) (Num (4 / 10))) scoredEvents
         in js_slice0
              (if length studentFriendlyEvents > 0 then studentFriendlyEvents else scoredEvents)
              maxResults))"

section \<open>Example inputs\<close>

text \<open>A candidate with every optional field missing, and the specification's scenario.\<close>

definition blankEvent :: RawEvent where
  "blankEvent = \<lparr> id_of = ''0'', title = None, description = None, location = None,
     dateTime = None, platform = ''instagram'', sourceUrl = [], rawData = [],
     imageUrl = None, organizer = None, price = None, ageRestriction = None, tags = None,
     eventType = None \<rparr>"

definition studentBarNight :: RawEvent where
  "studentBarNight = blankEvent \<lparr> id_of := ''ig-1'', title := Some ''Student bar night'',
     description := Some ''cheap drinks, free entry, student discount'',
     location := Some ''Barcelona'' \<rparr>"

text \<open>The same event as another platform posts it, and as a client sends it back tagged.\<close>

definition studentBarNight_repost :: RawEvent where
  "studentBarNight_repost = blankEvent \<lparr> id_of := ''rd-7'',
     title := Some ''STUDENT BAR NIGHT!!'', location := Some ''barcelona'',
     platform := ''reddit'' \<rparr>"

definition studentBarNight_tagged :: RawEvent where
  "studentBarNight_tagged = studentBarNight \<lparr> eventType := Some ''nightlife'' \<rparr>"

text \<open>Events and platform results for the ranking route.\<close>

definition hikingBarParty :: RawEvent where
  "hikingBarParty = blankEvent \<lparr> id_of := ''ig-2'',
     title := Some ''Hiking day, then a bar party'' \<rparr>"

definition hikingThenBar :: RawEvent where
  "hikingThenBar = blankEvent \<lparr> id_of := ''ig-5'', title := Some ''Hiking, then the bar'' \<rparr>"

definition quietEvening :: RawEvent where
  "quietEvening = blankEvent \<lparr> id_of := ''ig-3'', title := Some ''Quiet evening'',
     description := Some ''A long walk through the old town followed by dinner at nine'',
     location := Some ''Rome'' \<rparr>"

definition campusTour :: RawEvent where
  "campusTour = blankEvent \<lparr> id_of := ''ig-4'', title := Some ''International campus tour'',
     location := Some ''Rome'', imageUrl := Some ''https://example.org/tour.jpg'' \<rparr>"

definition failedResult :: ScrapingResult where
  "failedResult = \<lparr> success = False, events = [quietEvening], error = Some ''timeout'',
     result_platform = ''twitter'', result_query = ''student bar'',
     result_location = ''barcelona'', scrapedAt = 0 \<rparr>"

definition okResult :: ScrapingResult where
  "okResult = \<lparr> success = True, events = [studentBarNight, studentBarNight_repost],
     error = None, result_platform = ''instagram'', result_query = ''student bar'',
     result_location = ''barcelona'', scrapedAt = 0 \<rparr>"

definition romeResult :: ScrapingResult where
  "romeResult = \<lparr> success = True, events = [quietEvening, campusTour],
     error = None, result_platform = ''instagram'', result_query = ''zzz'',
     result_location = ''rome'', scrapedAt = 0 \<rparr>"

section \<open>Score ranges as predicates\<close>

text \<open>A score in the closed interval from 0 to 1; \<open>NaN\<close> is in no interval.\<close>

fun inUnitInterval :: "jsnum \<Rightarrow> bool" where
  "inUnitInterval (Num r) = (0 \<le> r \<and> r \<le> 1)"
| "inUnitInterval NaN = False"

fun nonNegative :: "jsnum \<Rightarrow> bool" where
  "nonNegative (Num r) = (0 \<le> r)"
| "nonNegative NaN = False"

section \<open>Sorting, the loop and the seen-set filter\<close>

lemma set_js_insert: "set (js_insert cmp x ys) = insert x (set ys)"
  by (induction ys) auto

lemma set_js_sort: "set (js_sort cmp xs) = set xs"
  unfolding js_sort_def by (induction xs) (simp_all add: set_js_insert)

lemma length_js_insert: "length (js_insert cmp x ys) = Suc (length ys)"
  by (induction ys) auto

lemma length_js_sort: "length (js_sort cmp xs) = length xs"
  unfolding js_sort_def by (induction xs) (simp_all add: length_js_insert)

lemma tryBlock_cases:
  "tryBlock c q l t acc = Inl TypeError \<and> c = None
   \<or> tryBlock c q l t acc = Inr acc \<and> c \<noteq> None
   \<or> (\<exists>event. c = Some event \<and> tryBlock c q l t acc =
         Inr (acc @ [scoredObject event (calculateRelevanceScore event q l t)
                       (calculateStudentFriendlinessScore event) t]))"
  by (cases c) (auto simp: tryBlock_def Let_def)

lemma forLoop_returns: "\<exists>out. forLoop cs q l t acc = Inr out"
proof (induction cs arbitrary: acc)
  case Nil
  show ?case by simp
next
  case (Cons c cs)
  show ?case
    using Cons.IH by (cases "tryBlock c q l t acc") simp_all
qed

lemma forLoop_append:
  "forLoop (xs @ ys) q l t acc =
     (case forLoop xs q l t acc of Inl e \<Rightarrow> Inl e | Inr acc' \<Rightarrow> forLoop ys q l t acc')"
proof (induction xs arbitrary: acc)
  case Nil
  show ?case by simp
next
  case (Cons c cs)
  show ?case
    using Cons.IH by (cases "tryBlock c q l t acc") simp_all
qed

lemma forLoop_invariant:
  assumes "forLoop cs q l t acc = Inr out" and "\<forall>e\<in>set acc. P e"
    and "\<And>event r f. P (scoredObject event r f t)"
  shows "\<forall>e\<in>set out. P e"
  using assms(1,2)
proof (induction cs arbitrary: acc)
  case Nil
  then show ?case by simp
next
  case (Cons c cs)
  from tryBlock_cases [of c q l t acc] show ?case
  proof (elim disjE conjE exE)
    assume "tryBlock c q l t acc = Inl TypeError"
    with Cons show ?thesis by simp
  next
    assume "tryBlock c q l t acc = Inr acc"
    with Cons show ?thesis by simp
  next
    fix event
    assume t: "tryBlock c q l t acc =
      Inr (acc @ [scoredObject event (calculateRelevanceScore event q l t)
                    (calculateStudentFriendlinessScore event) t])"
    with Cons.prems(1) have "forLoop cs q l t (acc @ [scoredObject event (calculateRelevanceScore event q l t)
                    (calculateStudentFriendlinessScore event) t]) = Inr out" by simp
    moreover have "\<forall>e\<in>set (acc @ [scoredObject event (calculateRelevanceScore event q l t)
                    (calculateStudentFriendlinessScore event) t]). P e"
      using Cons.prems(2) assms(3) by simp
    ultimately show ?thesis by (rule Cons.IH)
  qed
qed

lemma scoredObject_threshold:
  "isStudentFriendly (scoredObject event r f t) =
     js_gt (studentFriendlinessScore (scoredObject event r f t)) (Num (6 / 10))"
  by (simp add: scoredObject_def)

lemma tryBlock_throws_iff: "(\<exists>err. tryBlock c q l t acc = Inl err) \<longleftrightarrow> c = None"
  by (cases c) (auto simp: tryBlock_def Let_def)

lemma forLoop_skip:
  assumes "tryBlock c q l t acc0 = Inl err"
  shows "forLoop (before @ c # rest) q l t acc = forLoop (before @ rest) q l t acc"
proof -
  from assms have "c = None"
    using tryBlock_throws_iff by blast
  then have "\<And>acc'. forLoop (c # rest) q l t acc' = forLoop rest q l t acc'"
    by (simp add: tryBlock_def)
  then show ?thesis
    by (simp add: forLoop_append split: sum.splits)
qed

lemma filterUnseen_subseq: "subseq (filterUnseen key seen xs) xs"
  by (induction xs arbitrary: seen) auto

lemma filterUnseen_length: "length (filterUnseen key seen xs) \<le> length xs"
  by (induction xs arbitrary: seen) (auto intro: le_SucI)

lemma filterUnseen_keys: "key ` set (filterUnseen key seen xs) = key ` set xs - seen"
  by (induction xs arbitrary: seen) auto

lemma filterUnseen_distinct: "distinct (map key (filterUnseen key seen xs))"
proof (induction xs arbitrary: seen)
  case Nil
  show ?case by simp
next
  case (Cons x xs)
  have "key x \<notin> key ` set (filterUnseen key (insert (key x) seen) xs)"
    by (simp add: filterUnseen_keys)
  with Cons show ?case by simp
qed

lemma filterUnseen_first:
  "e \<in> set (filterUnseen key seen xs) \<Longrightarrow> find (\<lambda>y. key y = key e) xs = Some e"
proof (induction xs arbitrary: seen)
  case Nil
  then show ?case by simp
next
  case (Cons x xs)
  show ?case
  proof (cases "key x \<in> seen")
    case True
    with Cons.prems have e: "e \<in> set (filterUnseen key seen xs)" by simp
    then have "key e \<in> key ` set xs - seen"
      using filterUnseen_keys [of key seen xs] by blast
    with True have "key x \<noteq> key e" by auto
    with Cons.IH [OF e] show ?thesis by simp
  next
    case False
    with Cons.prems have "e = x \<or> e \<in> set (filterUnseen key (insert (key x) seen) xs)" by simp
    then show ?thesis
    proof
      assume "e = x"
      then show ?thesis by simp
    next
      assume e: "e \<in> set (filterUnseen key (insert (key x) seen) xs)"
      then have "key e \<in> key ` set xs - insert (key x) seen"
        using filterUnseen_keys [of key "insert (key x) seen" xs] by blast
      then have "key x \<noteq> key e" by auto
      with Cons.IH [OF e] show ?thesis by simp
    qed
  qed
qed

lemma filterUnseen_fixpoint:
  "distinct (map key ys) \<Longrightarrow> key ` set ys \<inter> seen = {} \<Longrightarrow> filterUnseen key seen ys = ys"
proof (induction ys arbitrary: seen)
  case Nil
  show ?case by simp
next
  case (Cons y ys)
  from Cons.prems have "key y \<notin> seen" "distinct (map key ys)"
    "key ` set ys \<inter> insert (key y) seen = {}"
    by auto
  with Cons.IH [of "insert (key y) seen"] show ?case by simp
qed

lemma filterUnseen_idem:
  "filterUnseen key seen (filterUnseen key seen xs) = filterUnseen key seen xs"
  by (rule filterUnseen_fixpoint) (auto simp: filterUnseen_distinct filterUnseen_keys)

lemma filterUnseen_append:
  "filterUnseen key seen (xs @ ys) =
     filterUnseen key seen xs @ filterUnseen key (seen \<union> key ` set xs) ys"
proof (induction xs arbitrary: seen)
  case Nil
  show ?case by simp
next
  case (Cons x xs)
  show ?case
  proof (cases "key x \<in> seen")
    case True
    then have "seen \<union> key ` set (x # xs) = seen \<union> key ` set xs" by auto
    with True Cons.IH [of seen] show ?thesis by simp
  next
    case False
    have "insert (key x) seen \<union> key ` set xs = seen \<union> key ` set (x # xs)" by auto
    with False Cons.IH [of "insert (key x) seen"] show ?thesis by simp
  qed
qed

lemma filterUnseen_later_duplicate:
  assumes "key a = key b"
  shows "filterUnseen key seen (pre @ a # mid @ b # post) = filterUnseen key seen (pre @ a # mid @ post)"
proof -
  let ?S = "seen \<union> key ` set (pre @ a # mid)"
  have in_S: "key b \<in> ?S"
    using assms by auto
  have "filterUnseen key seen ((pre @ a # mid) @ b # post)
      = filterUnseen key seen (pre @ a # mid) @ filterUnseen key ?S (b # post)"
    by (rule filterUnseen_append)
  also have "filterUnseen key ?S (b # post) = filterUnseen key ?S post"
    using in_S by (simp only: filterUnseen.simps if_True)
  also have "filterUnseen key seen (pre @ a # mid) @ filterUnseen key ?S post
      = filterUnseen key seen ((pre @ a # mid) @ post)"
    by (rule filterUnseen_append [symmetric])
  finally show ?thesis
    by (simp only: append_assoc append_Cons)
qed

section \<open>The student-friendly flag\<close>

text \<open>
  Claim C3. Every event the scoring stages produce has \<open>isStudentFriendly\<close> equal to
  \<open>studentFriendlinessScore > 0.6\<close>: in the filter path (\<open>filterAndRankEvents\<close>, which
  always returns a list) and in the rank path (\<open>scoreAndRankEvents\<close>).
\<close>

theorem isStudentFriendly_is_threshold:
  "(\<exists>out. filterAndRankEvents cs q l t = Inr out \<and>
      (\<forall>e\<in>set out. isStudentFriendly e = js_gt (studentFriendlinessScore e) (Num (6 / 10))))
   \<and> (\<forall>e\<in>set (scoreAndRankEvents evs q' l' t').
        isStudentFriendly e = js_gt (studentFriendlinessScore e) (Num (6 / 10)))"
proof
  obtain out where out: "forLoop cs q l t [] = Inr out"
    using forLoop_returns by blast
  have "\<forall>e\<in>set out. isStudentFriendly e = js_gt (studentFriendlinessScore e) (Num (6 / 10))"
    by (rule forLoop_invariant [OF out]) (simp_all add: scoredObject_threshold)
  then show "\<exists>out. filterAndRankEvents cs q l t = Inr out \<and>
      (\<forall>e\<in>set out. isStudentFriendly e = js_gt (studentFriendlinessScore e) (Num (6 / 10)))"
    by (simp add: filterAndRankEvents_def out set_js_sort)
next
  show "\<forall>e\<in>set (scoreAndRankEvents evs q' l' t').
        isStudentFriendly e = js_gt (studentFriendlinessScore e) (Num (6 / 10))"
    by (auto simp: scoreAndRankEvents_def set_js_sort scoreEvent_def scoredObject_threshold)
qed

theorem isStudentFriendly_is_threshold_witness:
  "filterAndRankEvents [None, Some studentBarNight] ''student bar'' None None
     = Inr [scoredObject studentBarNight (Num (4 / 10)) (Num (6 / 10)) None]
   \<and> scoreAndRankEvents [studentBarNight] ''student bar'' ''barcelona'' None
     = [scoredObject studentBarNight (Num (7 / 10)) (Num (6 / 10)) None]
   \<and> isStudentFriendly (scoredObject studentBarNight (Num (7 / 10)) (Num (6 / 10)) None)
     = js_gt (studentFriendlinessScore (scoredObject studentBarNight (Num (7 / 10)) (Num (6 / 10)) None))
         (Num (6 / 10))
   \<and> isStudentFriendly (scoredObject studentBarNight (Num (4 / 10)) (Num (6 / 10)) None)
     = js_gt (studentFriendlinessScore (scoredObject studentBarNight (Num (4 / 10)) (Num (6 / 10)) None))
         (Num (6 / 10))"
proof -
  have a: "filterAndRankEvents [None, Some studentBarNight] ''student bar'' None None
     = Inr [scoredObject studentBarNight (Num (4 / 10)) (Num (6 / 10)) None]"
    by code_simp
  have b: "scoreAndRankEvents [studentBarNight] ''student bar'' ''barcelona'' None
     = [scoredObject studentBarNight (Num (7 / 10)) (Num (6 / 10)) None]"
    by code_simp
  from isStudentFriendly_is_threshold [where cs = "[None, Some studentBarNight]"
      and q = "''student bar''" and l = None and t = None and evs = "[studentBarNight]"
      and q' = "''student bar''" and l' = "''barcelona''" and t' = None]
  show ?thesis
    unfolding a b by simp
qed

section \<open>Exceptions in the filter loop\<close>

text \<open>
  Claim C9. \<open>filterAndRankEvents\<close> returns the empty list for no candidates, it returns
  a list (never an error) for every input, and a candidate whose processing throws is
  skipped: the result is the one for the list without that candidate, so every candidate
  before and after it is processed as usual.
\<close>

theorem filterAndRankEvents_survives_exceptions:
  "filterAndRankEvents [] q l t = Inr []
   \<and> (\<exists>out. filterAndRankEvents cs q l t = Inr out)
   \<and> (tryBlock c q l t acc = Inl err \<longrightarrow>
        filterAndRankEvents (before @ c # rest) q l t = filterAndRankEvents (before @ rest) q l t)"
proof (intro conjI impI)
  show "filterAndRankEvents [] q l t = Inr []"
    by (simp add: filterAndRankEvents_def js_sort_def)
  show "\<exists>out. filterAndRankEvents cs q l t = Inr out"
    using forLoop_returns [of cs q l t "[]"] by (auto simp: filterAndRankEvents_def)
  assume "tryBlock c q l t acc = Inl err"
  then show "filterAndRankEvents (before @ c # rest) q l t = filterAndRankEvents (before @ rest) q l t"
    by (simp add: filterAndRankEvents_def forLoop_skip)
qed

theorem filterAndRankEvents_survives_exceptions_witness:
  "tryBlock None ''student bar'' None None [] = Inl TypeError
   \<and> filterAndRankEvents [Some studentBarNight, None, Some studentBarNight_repost] ''student bar'' None None
     = filterAndRankEvents [Some studentBarNight, Some studentBarNight_repost] ''student bar'' None None
   \<and> filterAndRankEvents [Some studentBarNight, None, Some studentBarNight_repost] ''student bar'' None None
     = Inr [scoredObject studentBarNight (Num (4 / 10)) (Num (6 / 10)) None,
            scoredObject studentBarNight_repost (Num (4 / 10)) (Num (3 / 10)) None]"
proof -
  have thrown: "tryBlock None ''student bar'' None None [] = Inl TypeError"
    by (simp add: tryBlock_def)
  have run: "filterAndRankEvents [Some studentBarNight, Some studentBarNight_repost] ''student bar'' None None
     = Inr [scoredObject studentBarNight (Num (4 / 10)) (Num (6 / 10)) None,
            scoredObject studentBarNight_repost (Num (4 / 10)) (Num (3 / 10)) None]"
    by code_simp
  from filterAndRankEvents_survives_exceptions [where c = None and q = "''student bar''"
      and l = None and t = None and acc = "[]" and err = TypeError
      and before = "[Some studentBarNight]" and rest = "[Some studentBarNight_repost]"] thrown
  have "filterAndRankEvents [Some studentBarNight, None, Some studentBarNight_repost] ''student bar'' None None
     = filterAndRankEvents [Some studentBarNight, Some studentBarNight_repost] ''student bar'' None None"
    by simp
  with thrown run show ?thesis by simp
qed

section \<open>The event-type bonus\<close>

lemma addTypeBonus_no_field: "eventType event = None \<Longrightarrow> addTypeBonus event hint score = score"
  by (simp add: addTypeBonus_def truthy_def)

lemma addTypeBonus_no_hint [simp]: "addTypeBonus event None score = score"
  by (simp add: addTypeBonus_def truthy_def)

lemma addTypeBonus_changes:
  "addTypeBonus event hint score \<noteq> score \<Longrightarrow> eventType event = hint \<and> truthy hint"
  by (auto simp: addTypeBonus_def split: if_splits)

text \<open>
  Claim C10. In both relevance functions the event-type bonus is added only when the
  candidate itself already carries an \<open>eventType\<close> equal to the hint. A candidate without
  that field scores the same with any hint as with none, and the score the rank path
  stores is computed before the output object gets its \<open>eventType\<close>.
\<close>

theorem type_bonus_needs_existing_field:
  "(eventType event = None \<longrightarrow>
      calculateRelevanceScore event q l hint = calculateRelevanceScore event q l None
      \<and> calculateRelevanceScore_query event q l' hint = calculateRelevanceScore_query event q l' None
      \<and> relevanceScore (scoreEvent q l' hint event) = calculateRelevanceScore_query event q l' None)
   \<and> (calculateRelevanceScore event q l hint \<noteq> calculateRelevanceScore event q l None
        \<longrightarrow> eventType event = hint \<and> truthy hint)
   \<and> (calculateRelevanceScore_query event q l' hint \<noteq> calculateRelevanceScore_query event q l' None
        \<longrightarrow> eventType event = hint \<and> truthy hint)"
proof (intro conjI impI)
  assume none: "eventType event = None"
  show a: "calculateRelevanceScore event q l hint = calculateRelevanceScore event q l None"
    by (simp add: calculateRelevanceScore_def addTypeBonus_no_field [OF none])
  show b: "calculateRelevanceScore_query event q l' hint = calculateRelevanceScore_query event q l' None"
    by (simp add: calculateRelevanceScore_query_def addTypeBonus_no_field [OF none])
  show "relevanceScore (scoreEvent q l' hint event) = calculateRelevanceScore_query event q l' None"
    by (simp add: scoreEvent_def scoredObject_def b)
next
  assume ne: "calculateRelevanceScore event q l hint \<noteq> calculateRelevanceScore event q l None"
  have "\<exists>s. addTypeBonus event hint s \<noteq> s"
  proof (rule ccontr)
    assume "\<not> (\<exists>s. addTypeBonus event hint s \<noteq> s)"
    then have "calculateRelevanceScore event q l hint = calculateRelevanceScore event q l None"
      by (simp add: calculateRelevanceScore_def)
    with ne show False by simp
  qed
  then show "eventType event = hint" "truthy hint"
    using addTypeBonus_changes by blast+
next
  assume ne: "calculateRelevanceScore_query event q l' hint \<noteq> calculateRelevanceScore_query event q l' None"
  have "\<exists>s. addTypeBonus event hint s \<noteq> s"
  proof (rule ccontr)
    assume "\<not> (\<exists>s. addTypeBonus event hint s \<noteq> s)"
    then have "calculateRelevanceScore_query event q l' hint = calculateRelevanceScore_query event q l' None"
      by (simp add: calculateRelevanceScore_query_def)
    with ne show False by simp
  qed
  then show "eventType event = hint" "truthy hint"
    using addTypeBonus_changes by blast+
qed

theorem type_bonus_needs_existing_field_witness:
  "eventType studentBarNight = None
   \<and> categorizeEventByKeywords studentBarNight = ''nightlife''
   \<and> calculateRelevanceScore studentBarNight ''student bar'' (Some ''barcelona'') (Some ''nightlife'')
     = calculateRelevanceScore studentBarNight ''student bar'' (Some ''barcelona'') None
   \<and> calculateRelevanceScore_query studentBarNight ''student bar'' ''barcelona'' (Some ''nightlife'')
     = calculateRelevanceScore_query studentBarNight ''student bar'' ''barcelona'' None
   \<and> eventType (scoreEvent ''student bar'' ''barcelona'' (Some ''nightlife'') studentBarNight)
     = Some ''nightlife''
   \<and> relevanceScore (scoreEvent ''student bar'' ''barcelona'' (Some ''nightlife'') studentBarNight)
     = Num (7 / 10)
   \<and> calculateRelevanceScore studentBarNight_tagged ''student bar'' (Some ''barcelona'') (Some ''nightlife'')
     = Num (9 / 10)
   \<and> eventType studentBarNight_tagged = Some ''nightlife''"
proof -
  have none: "eventType studentBarNight = None"
    by (simp add: studentBarNight_def blankEvent_def)
  have cat: "categorizeEventByKeywords studentBarNight = ''nightlife''"
    by code_simp
  have plain: "calculateRelevanceScore_query studentBarNight ''student bar'' ''barcelona'' None = Num (7 / 10)"
    by code_simp
  have stored: "eventType (scoreEvent ''student bar'' ''barcelona'' (Some ''nightlife'') studentBarNight)
     = Some ''nightlife''"
    by (simp add: scoreEvent_def scoredObject_def truthy_def)
  have tagged: "calculateRelevanceScore studentBarNight_tagged ''student bar'' (Some ''barcelona'') (Some ''nightlife'')
     = Num (9 / 10)"
    by code_simp
  have untagged: "calculateRelevanceScore studentBarNight_tagged ''student bar'' (Some ''barcelona'') None
     = Num (7 / 10)"
    by code_simp
  have differ: "calculateRelevanceScore studentBarNight_tagged ''student bar'' (Some ''barcelona'') (Some ''nightlife'')
     \<noteq> calculateRelevanceScore studentBarNight_tagged ''student bar'' (Some ''barcelona'') None"
    unfolding tagged untagged by simp
  from type_bonus_needs_existing_field [where event = studentBarNight and q = "''student bar''"
      and l = "Some ''barcelona''" and l' = "''barcelona''" and hint = "Some ''nightlife''"] none
  have first: "calculateRelevanceScore studentBarNight ''student bar'' (Some ''barcelona'') (Some ''nightlife'')
       = calculateRelevanceScore studentBarNight ''student bar'' (Some ''barcelona'') None"
    and second: "calculateRelevanceScore_query studentBarNight ''student bar'' ''barcelona'' (Some ''nightlife'')
       = calculateRelevanceScore_query studentBarNight ''student bar'' ''barcelona'' None"
    and third: "relevanceScore (scoreEvent ''student bar'' ''barcelona'' (Some ''nightlife'') studentBarNight)
       = calculateRelevanceScore_query studentBarNight ''student bar'' ''barcelona'' None"
    by blast+
  from type_bonus_needs_existing_field [where event = studentBarNight_tagged and q = "''student bar''"
      and l = "Some ''barcelona''" and l' = "''barcelona''" and hint = "Some ''nightlife''"] differ
  have carried: "eventType studentBarNight_tagged = Some ''nightlife''"
    by blast
  from none cat first second stored third plain tagged carried show ?thesis
    by simp
qed

section \<open>Deduplication keeps first occurrences\<close>

text \<open>
  Claim C5. \<open>removeDuplicateEvents\<close> keeps a subsequence of its input (so the kept events
  stand in their input order), one event per fingerprint, and the kept event of a
  fingerprint is the first input event with it. An event whose fingerprint equals that
  of an earlier event changes nothing, whatever its platform or id: of two such events
  only the earlier is kept.
\<close>

theorem removeDuplicateEvents_first_occurrence_wins:
  "subseq (removeDuplicateEvents xs) xs
   \<and> distinct (map dedupKey (removeDuplicateEvents xs))
   \<and> dedupKey ` set (removeDuplicateEvents xs) = dedupKey ` set xs
   \<and> (\<forall>e\<in>set (removeDuplicateEvents xs). find (\<lambda>y. dedupKey y = dedupKey e) xs = Some e)
   \<and> (dedupKey a = dedupKey b \<longrightarrow>
        removeDuplicateEvents (pre @ a # mid @ b # post) = removeDuplicateEvents (pre @ a # mid @ post)
        \<and> removeDuplicateEvents [a, b] = [a])"
proof (intro conjI ballI impI)
  show "subseq (removeDuplicateEvents xs) xs"
    by (simp add: removeDuplicateEvents_def filterUnseen_subseq)
  show "distinct (map dedupKey (removeDuplicateEvents xs))"
    by (simp add: removeDuplicateEvents_def filterUnseen_distinct)
  show "dedupKey ` set (removeDuplicateEvents xs) = dedupKey ` set xs"
    by (simp add: removeDuplicateEvents_def filterUnseen_keys)
  show "find (\<lambda>y. dedupKey y = dedupKey e) xs = Some e" if "e \<in> set (removeDuplicateEvents xs)" for e
    using that by (simp add: removeDuplicateEvents_def filterUnseen_first)
  assume k: "dedupKey a = dedupKey b"
  show "removeDuplicateEvents (pre @ a # mid @ b # post) = removeDuplicateEvents (pre @ a # mid @ post)"
    unfolding removeDuplicateEvents_def
    using k by (rule filterUnseen_later_duplicate [of dedupKey a b])
  show "removeDuplicateEvents [a, b] = [a]"
    using k by (simp add: removeDuplicateEvents_def)
qed

theorem removeDuplicateEvents_first_occurrence_wins_witness:
  "dedupKey studentBarNight = dedupKey studentBarNight_repost
   \<and> platform studentBarNight \<noteq> platform studentBarNight_repost
   \<and> id_of studentBarNight \<noteq> id_of studentBarNight_repost
   \<and> removeDuplicateEvents [studentBarNight, studentBarNight_repost] = [studentBarNight]
   \<and> find (\<lambda>y. dedupKey y = dedupKey studentBarNight) [studentBarNight, studentBarNight_repost]
     = Some studentBarNight"
proof -
  have same: "dedupKey studentBarNight = dedupKey studentBarNight_repost"
    by code_simp
  have other: "platform studentBarNight \<noteq> platform studentBarNight_repost"
    "id_of studentBarNight \<noteq> id_of studentBarNight_repost"
    by (simp_all add: studentBarNight_def studentBarNight_repost_def blankEvent_def)
  note fact = removeDuplicateEvents_first_occurrence_wins [where a = studentBarNight
      and b = studentBarNight_repost and xs = "[studentBarNight, studentBarNight_repost]"
      and pre = "[]" and mid = "[]" and post = "[]"]
  from fact same have kept: "removeDuplicateEvents [studentBarNight, studentBarNight_repost] = [studentBarNight]"
    by blast
  from fact have "\<forall>e\<in>set (removeDuplicateEvents [studentBarNight, studentBarNight_repost]).
      find (\<lambda>y. dedupKey y = dedupKey e) [studentBarNight, studentBarNight_repost] = Some e"
    by blast
  then have "find (\<lambda>y. dedupKey y = dedupKey studentBarNight) [studentBarNight, studentBarNight_repost]
     = Some studentBarNight"
    unfolding kept by simp
  with same other kept show ?thesis by blast
qed

text \<open>
  Claim C6. \<open>removeDuplicateEvents\<close> is idempotent and never lengthens its input, with
  the key of the query route and with the key of the scrape route.
\<close>

theorem removeDuplicateEvents_idempotent:
  "removeDuplicateEvents (removeDuplicateEvents xs) = removeDuplicateEvents xs
   \<and> length (removeDuplicateEvents xs) \<le> length xs
   \<and> removeDuplicateEvents_scrape (removeDuplicateEvents_scrape xs) = removeDuplicateEvents_scrape xs
   \<and> length (removeDuplicateEvents_scrape xs) \<le> length xs"
  by (simp add: removeDuplicateEvents_def removeDuplicateEvents_scrape_def
      filterUnseen_idem filterUnseen_length)

section \<open>Score ranges\<close>

lemma js_add_NaN_iff [simp]: "js_add a b = NaN \<longleftrightarrow> a = NaN \<or> b = NaN"
  by (cases a; cases b) simp_all

lemma js_mul_NaN_iff [simp]: "js_mul a b = NaN \<longleftrightarrow> a = NaN \<or> b = NaN"
  by (cases a; cases b) simp_all

lemma js_min_NaN_iff [simp]: "js_min a b = NaN \<longleftrightarrow> a = NaN \<or> b = NaN"
  by (cases a; cases b) simp_all

lemma bump_NaN_iff [simp]: "bump c w s = NaN \<longleftrightarrow> s = NaN"
  by (simp add: bump_def)

lemma addTypeBonus_NaN_iff [simp]: "addTypeBonus event hint s = NaN \<longleftrightarrow> s = NaN"
  by (simp add: addTypeBonus_def)

lemma addQualityBonus_NaN_iff [simp]: "addQualityBonus event s = NaN \<longleftrightarrow> s = NaN"
  by (simp add: addQualityBonus_def Let_def)

lemma matchingWords_le: "length (matchingWords event query) \<le> length (queryWords query)"
  by (simp add: matchingWords_def)

lemma overlapTerm_NaN_iff: "overlapTerm event query = NaN \<longleftrightarrow> queryWords query = []"
  by (simp add: overlapTerm_def js_length_def)

lemma calculateRelevanceScore_NaN_iff:
  "calculateRelevanceScore event query l t = NaN \<longleftrightarrow> queryWords query = []"
  by (simp add: calculateRelevanceScore_def Let_def overlapTerm_NaN_iff)

lemma calculateRelevanceScore_query_NaN_iff:
  "calculateRelevanceScore_query event query l t = NaN \<longleftrightarrow> queryWords query = []"
  by (simp add: calculateRelevanceScore_query_def Let_def overlapTerm_NaN_iff)

lemma calculateStudentFriendlinessScore_not_NaN: "calculateStudentFriendlinessScore event \<noteq> NaN"
  by (simp add: calculateStudentFriendlinessScore_def Let_def)

lemma nonNegative_add: "nonNegative s \<Longrightarrow> 0 \<le> w \<Longrightarrow> nonNegative (js_add s (Num w))"
  by (cases s) simp_all

lemma nonNegative_bump: "nonNegative s \<Longrightarrow> 0 \<le> w \<Longrightarrow> nonNegative (bump c w s)"
  by (simp add: bump_def nonNegative_add)

lemma nonNegative_addTypeBonus: "nonNegative s \<Longrightarrow> nonNegative (addTypeBonus event hint s)"
  by (simp add: addTypeBonus_def nonNegative_add)

lemma nonNegative_addQualityBonus: "nonNegative s \<Longrightarrow> nonNegative (addQualityBonus event s)"
  by (simp add: addQualityBonus_def Let_def nonNegative_add)

lemma clamp_in_unit_interval: "nonNegative s \<Longrightarrow> inUnitInterval (js_min s (Num 1))"
  by (cases s) simp_all

lemma nonNegative_overlapTerm:
  "queryWords query \<noteq> [] \<Longrightarrow> nonNegative (js_add (Num 0) (overlapTerm event query))"
  by (simp add: overlapTerm_def js_length_def)

lemma calculateStudentFriendlinessScore_in_range:
  "inUnitInterval (calculateStudentFriendlinessScore event)"
  unfolding calculateStudentFriendlinessScore_def Let_def
  by (intro clamp_in_unit_interval nonNegative_bump) simp_all

lemma calculateRelevanceScore_in_range:
  assumes "queryWords query \<noteq> []"
  shows "inUnitInterval (calculateRelevanceScore event query l t)"
  unfolding calculateRelevanceScore_def Let_def
  by (intro clamp_in_unit_interval nonNegative_addQualityBonus nonNegative_addTypeBonus)
     (simp add: nonNegative_add nonNegative_overlapTerm [OF assms])

lemma calculateRelevanceScore_query_in_range:
  assumes "queryWords query \<noteq> []"
  shows "inUnitInterval (calculateRelevanceScore_query event query l t)"
  unfolding calculateRelevanceScore_query_def Let_def
  by (intro clamp_in_unit_interval nonNegative_addQualityBonus nonNegative_addTypeBonus)
     (simp add: nonNegative_add nonNegative_overlapTerm [OF assms])

text \<open>
  Claim C1. The student-friendliness score is always in \<open>[0, 1]\<close>, and so is the
  relevance score of a query with a token longer than two characters (the three lemmas
  above). For a query without such a token the claim fails on the code: both relevance
  functions return \<open>NaN\<close>, which lies in no interval. The theorem evaluates the code at
  the query \<open>hi\<close>.
\<close>

theorem relevance_is_NaN_without_long_token:
  "queryWords ''hi'' = []
   \<and> calculateRelevanceScore studentBarNight ''hi'' None None = NaN
   \<and> calculateRelevanceScore_query studentBarNight ''hi'' ''barcelona'' None = NaN
   \<and> \<not> inUnitInterval (calculateRelevanceScore studentBarNight ''hi'' None None)"
  by code_simp

text \<open>
  Claim C2. The claim wants the token-overlap term skipped (worth 0) when the query has
  no token longer than two characters. The code has no such guard: it divides the number
  of matching words, 0, by the number of query words, 0, and the term is \<open>NaN\<close>. The
  theorem evaluates the code at the query \<open>is it on\<close>.
\<close>

theorem overlap_term_divides_zero_by_zero:
  "queryWords ''is it on'' = []
   \<and> js_length (matchingWords studentBarNight ''is it on'') = Num 0
   \<and> js_length (queryWords ''is it on'') = Num 0
   \<and> js_div (js_length (matchingWords studentBarNight ''is it on''))
         (js_length (queryWords ''is it on'')) = NaN
   \<and> overlapTerm studentBarNight ''is it on'' = NaN
   \<and> overlapTerm studentBarNight ''is it on'' \<noteq> Num 0"
  by code_simp

section \<open>The categorizer\<close>

text \<open>
  The claim as stated fails: a text with \<open>hiking\<close> and \<open>bar\<close> that also has a keyword of
  an earlier rule gets that rule's category. Here \<open>party\<close> makes it \<open>social\<close>.
\<close>

theorem hiking_bar_counterexample:
  "str_includes (eventText hikingBarParty) ''hiking''
   \<and> str_includes (eventText hikingBarParty) ''bar''
   \<and> categorizeEventByKeywords hikingBarParty = ''social''
   \<and> categorizeEventByKeywords hikingBarParty \<noteq> ''nightlife''"
  by code_simp

text \<open>
  Claim C4, amended. \<open>categorizeEventByKeywords\<close> is \<open>categorize_spec\<close>: the first match
  over the documented rules in their documented order, \<open>general\<close> when none matches. For a text with both
  \<open>hiking\<close> and \<open>bar\<close> the result is never \<open>outdoor\<close>: it is the category of one of the
  first five rules, and it is \<open>nightlife\<close> when no keyword of the four rules before
  nightlife occurs in the text.
\<close>

theorem categorize_first_match:
  "categorizeEventByKeywords event = categorize_spec event
   \<and> (str_includes (eventText event) ''hiking'' \<and> str_includes (eventText event) ''bar''
        \<longrightarrow> categorizeEventByKeywords event \<noteq> ''outdoor''
          \<and> categorizeEventByKeywords event
              \<in> {''social'', ''academic'', ''cultural'', ''sports'', ''nightlife''})
   \<and> (str_includes (eventText event) ''bar''
        \<and> \<not> list_ex (str_includes (eventText event))
              [''party'', ''meetup'', ''social'', ''workshop'', ''seminar'', ''lecture'',
               ''museum'', ''art'', ''culture'', ''sport'', ''fitness'', ''outdoor'']
        \<longrightarrow> categorizeEventByKeywords event = ''nightlife'')"
proof (intro conjI impI)
  show "categorizeEventByKeywords event = categorize_spec event"
    by (simp add: categorizeEventByKeywords_def categorize_spec_def documentedRules_def Let_def)
next
  assume "str_includes (eventText event) ''hiking'' \<and> str_includes (eventText event) ''bar''"
  then have bar: "str_includes (eventText event) ''bar''" by simp
  then show "categorizeEventByKeywords event \<noteq> ''outdoor''"
    by (simp add: categorizeEventByKeywords_def Let_def)
  from bar show "categorizeEventByKeywords event
              \<in> {''social'', ''academic'', ''cultural'', ''sports'', ''nightlife''}"
    by (simp add: categorizeEventByKeywords_def Let_def)
next
  assume "str_includes (eventText event) ''bar''
        \<and> \<not> list_ex (str_includes (eventText event))
              [''party'', ''meetup'', ''social'', ''workshop'', ''seminar'', ''lecture'',
               ''museum'', ''art'', ''culture'', ''sport'', ''fitness'', ''outdoor'']"
  then show "categorizeEventByKeywords event = ''nightlife''"
    by (simp add: categorizeEventByKeywords_def Let_def)
qed

theorem categorize_first_match_witness:
  "str_includes (eventText hikingThenBar) ''hiking''
   \<and> str_includes (eventText hikingThenBar) ''bar''
   \<and> \<not> list_ex (str_includes (eventText hikingThenBar))
         [''party'', ''meetup'', ''social'', ''workshop'', ''seminar'', ''lecture'',
          ''museum'', ''art'', ''culture'', ''sport'', ''fitness'', ''outdoor'']
   \<and> categorizeEventByKeywords hikingThenBar = ''nightlife''
   \<and> categorizeEventByKeywords hikingThenBar \<noteq> ''outdoor''
   \<and> categorizeEventByKeywords hikingThenBar = categorize_spec hikingThenBar"
proof -
  have hiking: "str_includes (eventText hikingThenBar) ''hiking''"
    by code_simp
  have bar: "str_includes (eventText hikingThenBar) ''bar''"
    by code_simp
  have earlier: "\<not> list_ex (str_includes (eventText hikingThenBar))
         [''party'', ''meetup'', ''social'', ''workshop'', ''seminar'', ''lecture'',
          ''museum'', ''art'', ''culture'', ''sport'', ''fitness'', ''outdoor'']"
    by code_simp
  note fact = categorize_first_match [where event = hikingThenBar]
  from fact hiking bar have "categorizeEventByKeywords hikingThenBar \<noteq> ''outdoor''"
    by blast
  moreover from fact bar earlier have "categorizeEventByKeywords hikingThenBar = ''nightlife''"
    by blast
  moreover from fact
  have "categorizeEventByKeywords hikingThenBar = categorize_spec hikingThenBar"
    by blast
  ultimately show ?thesis
    using hiking bar earlier by blast
qed

section \<open>Flattening the platform results\<close>

lemma allEvents_query_eq: "allEvents_query rs = allEvents rs"
  by (induction rs) (simp_all add: allEvents_query_def allEvents_def)

lemma set_js_slice0: "set (js_slice0 xs n) \<subseteq> set xs"
  by (simp add: js_slice0_def set_take_subset)

lemma set_filterUnseen: "set (filterUnseen key seen xs) \<subseteq> set xs"
  by (induction xs arbitrary: seen) auto

lemma set_scoreAndRankEvents:
  "set (scoreAndRankEvents evs q l t) = scoreEvent q l t ` set evs"
  by (simp add: scoreAndRankEvents_def set_js_sort)

lemma finalEvents_origin:
  assumes "se \<in> set (finalEvents rs q l t m)"
  shows "\<exists>e\<in>set (removeDuplicateEvents (allEvents rs)). se = scoreEvent q l t e"
proof -
  let ?scored = "scoreAndRankEvents (removeDuplicateEvents (allEvents rs)) q l t"
  from assms have "se \<in> set ?scored"
    using set_js_slice0 [of "filter (\<lambda>event. js_gt (studentFriendlinessScore event) (Num (4 / 10))) ?scored" m]
      set_js_slice0 [of ?scored m]
    by (auto simp: finalEvents_def Let_def split: if_splits)
  then show ?thesis
    by (auto simp: set_scoreAndRankEvents)
qed

text \<open>
  Claim C7. Both routes collect the events of the results with \<open>success\<close> true only.
  With one failed and one successful result, in either order, the collected events are
  the successful result's, the ranked output is the one of the successful result alone,
  and each of its events is the scored form of a deduplicated event of the successful
  result.
\<close>

theorem only_successful_results_are_ranked:
  "allEvents_query rs = allEvents rs
   \<and> set (allEvents rs) = (\<Union>r\<in>{r \<in> set rs. success r}. set (events r))
   \<and> (\<not> success failed \<and> success ok \<longrightarrow>
        allEvents [failed, ok] = events ok \<and> allEvents [ok, failed] = events ok
        \<and> allEvents_query [failed, ok] = events ok \<and> allEvents_query [ok, failed] = events ok
        \<and> finalEvents [failed, ok] q l t m = finalEvents [ok] q l t m
        \<and> (\<forall>se\<in>set (finalEvents [failed, ok] q l t m).
              \<exists>e\<in>set (removeDuplicateEvents (events ok)). se = scoreEvent q l t e)
        \<and> set (removeDuplicateEvents (events ok)) \<subseteq> set (events ok))"
proof (intro conjI impI)
  show "allEvents_query rs = allEvents rs"
    by (rule allEvents_query_eq)
  show "set (allEvents rs) = (\<Union>r\<in>{r \<in> set rs. success r}. set (events r))"
    by (auto simp: allEvents_def)
next
  assume a: "\<not> success failed \<and> success ok"
  then show fo: "allEvents [failed, ok] = events ok" and "allEvents [ok, failed] = events ok"
    by (simp_all add: allEvents_def)
  then show "allEvents_query [failed, ok] = events ok" and "allEvents_query [ok, failed] = events ok"
    by (simp_all add: allEvents_query_eq)
  have o: "allEvents [ok] = events ok"
    using a by (simp add: allEvents_def)
  show "finalEvents [failed, ok] q l t m = finalEvents [ok] q l t m"
    by (simp add: finalEvents_def fo o)
  show "\<forall>se\<in>set (finalEvents [failed, ok] q l t m).
              \<exists>e\<in>set (removeDuplicateEvents (events ok)). se = scoreEvent q l t e"
    using finalEvents_origin [of _ "[failed, ok]" q l t m] by (simp add: fo)
  show "set (removeDuplicateEvents (events ok)) \<subseteq> set (events ok)"
    by (simp add: removeDuplicateEvents_def set_filterUnseen)
qed

theorem only_successful_results_are_ranked_witness:
  "\<not> success failedResult \<and> success okResult
   \<and> events failedResult = [quietEvening]
   \<and> allEvents [failedResult, okResult] = [studentBarNight, studentBarNight_repost]
   \<and> allEvents_query [failedResult, okResult] = [studentBarNight, studentBarNight_repost]
   \<and> finalEvents [failedResult, okResult] ''student bar'' ''barcelona'' None 20
       = finalEvents [okResult] ''student bar'' ''barcelona'' None 20
   \<and> finalEvents [failedResult, okResult] ''student bar'' ''barcelona'' None 20
       = [scoreEvent ''student bar'' ''barcelona'' None studentBarNight]
   \<and> studentBarNight \<in> set (removeDuplicateEvents (events okResult))"
proof -
  have flags: "\<not> success failedResult \<and> success okResult"
    by (simp add: failedResult_def okResult_def)
  have evs: "events failedResult = [quietEvening]"
      "events okResult = [studentBarNight, studentBarNight_repost]"
    by (simp_all add: failedResult_def okResult_def)
  have run: "finalEvents [okResult] ''student bar'' ''barcelona'' None 20
       = [scoreEvent ''student bar'' ''barcelona'' None studentBarNight]"
    by code_simp
  have kept: "removeDuplicateEvents [studentBarNight, studentBarNight_repost] = [studentBarNight]"
    by code_simp
  note fact = only_successful_results_are_ranked [where failed = failedResult and ok = okResult
      and rs = "[failedResult, okResult]" and q = "''student bar''" and l = "''barcelona''"
      and t = None and m = 20]
  from fact flags have "allEvents [failedResult, okResult] = events okResult"
    and "allEvents_query [failedResult, okResult] = events okResult"
    and "finalEvents [failedResult, okResult] ''student bar'' ''barcelona'' None 20
       = finalEvents [okResult] ''student bar'' ''barcelona'' None 20"
    by blast+
  with flags evs run kept show ?thesis
    by simp
qed

section \<open>The student-friendly view and its fallback\<close>

lemma js_gt_sub: "js_gt (js_sub b a) (Num 0) = js_gt b a"
  by (cases a; cases b) simp_all

lemma js_gt_asym: "js_gt b a \<Longrightarrow> \<not> js_gt a b"
  by (cases a; cases b) simp_all

lemma js_not_gt_trans:
  "a \<noteq> NaN \<Longrightarrow> b \<noteq> NaN \<Longrightarrow> c \<noteq> NaN \<Longrightarrow> \<not> js_gt c b \<Longrightarrow> \<not> js_gt b a \<Longrightarrow> \<not> js_gt c a"
  by (cases a; cases b; cases c) simp_all

lemma js_insert_sorted:
  assumes "\<forall>z\<in>set (x # ys). f z \<noteq> NaN"
    and "sorted_wrt (\<lambda>a b. \<not> js_gt (f b) (f a)) ys"
  shows "sorted_wrt (\<lambda>a b. \<not> js_gt (f b) (f a)) (js_insert (\<lambda>a b. js_sub (f b) (f a)) x ys)"
  using assms
proof (induction ys)
  case Nil
  show ?case by simp
next
  case (Cons y ys)
  show ?case
  proof (cases "js_gt (f y) (f x)")
    case True
    have "sorted_wrt (\<lambda>a b. \<not> js_gt (f b) (f a)) (js_insert (\<lambda>a b. js_sub (f b) (f a)) x ys)"
      using Cons by simp
    moreover have "\<forall>z\<in>set (js_insert (\<lambda>a b. js_sub (f b) (f a)) x ys). \<not> js_gt (f z) (f y)"
      using Cons.prems(2) True by (auto simp: set_js_insert dest: js_gt_asym)
    ultimately show ?thesis
      using True by (simp add: js_gt_sub)
  next
    case False
    have "\<not> js_gt (f z) (f x)" if "z \<in> set ys" for z
    proof -
      from that Cons.prems(2) have "\<not> js_gt (f z) (f y)" by simp
      moreover from that Cons.prems(1) have "f x \<noteq> NaN" "f y \<noteq> NaN" "f z \<noteq> NaN" by simp_all
      ultimately show ?thesis
        using False js_not_gt_trans by blast
    qed
    with False Cons.prems(2) show ?thesis
      by (simp add: js_gt_sub)
  qed
qed

lemma js_sort_sorted:
  assumes "\<forall>z\<in>set xs. f z \<noteq> NaN"
  shows "sorted_wrt (\<lambda>a b. \<not> js_gt (f b) (f a)) (js_sort (\<lambda>a b. js_sub (f b) (f a)) xs)"
  using assms
proof (induction xs)
  case Nil
  show ?case by (simp add: js_sort_def)
next
  case (Cons x xs)
  have "sorted_wrt (\<lambda>a b. \<not> js_gt (f b) (f a))
      (js_insert (\<lambda>a b. js_sub (f b) (f a)) x (js_sort (\<lambda>a b. js_sub (f b) (f a)) xs))"
    using Cons by (intro js_insert_sorted) (simp_all add: set_js_sort)
  then show ?case by (simp add: js_sort_def)
qed

lemma sorted_wrt_all_related: "(\<forall>a\<in>set xs. \<forall>b\<in>set xs. R a b) \<Longrightarrow> sorted_wrt R xs"
  by (induction xs) auto

lemma combinedScore_NaN_iff:
  "combinedScore (scoreEvent q l t e) = NaN \<longleftrightarrow> queryWords q = []"
  by (simp add: combinedScore_def scoreEvent_def scoredObject_def
      calculateRelevanceScore_query_NaN_iff calculateStudentFriendlinessScore_not_NaN)

lemma scoreAndRankEvents_sorted:
  "sorted_wrt (\<lambda>a b. \<not> js_gt (combinedScore b) (combinedScore a)) (scoreAndRankEvents evs q l t)"
proof (cases "queryWords q = []")
  case True
  then have "\<forall>a\<in>set (scoreAndRankEvents evs q l t). combinedScore a = NaN"
    by (auto simp: set_scoreAndRankEvents combinedScore_NaN_iff)
  then show ?thesis
    by (intro sorted_wrt_all_related) simp
next
  case False
  have cmp: "byCombinedScore = (\<lambda>a b. js_sub (combinedScore b) (combinedScore a))"
    by (intro ext) (simp add: byCombinedScore_def)
  have "\<forall>z\<in>set (map (scoreEvent q l t) evs). combinedScore z \<noteq> NaN"
    using False by (auto simp: combinedScore_NaN_iff)
  then show ?thesis
    unfolding scoreAndRankEvents_def cmp by (rule js_sort_sorted)
qed

lemma scoreAndRankEvents_Nil_iff: "scoreAndRankEvents evs q l t = [] \<longleftrightarrow> evs = []"
  using length_js_sort [of byCombinedScore "map (scoreEvent q l t) evs"]
  by (auto simp: scoreAndRankEvents_def js_sort_def)

text \<open>
  The claim as stated fails in one word: the list the route falls back to is not sorted
  by relevance. \<open>scoreAndRankEvents\<close> sorts by the combined score, so an event of lower
  relevance and higher student-friendliness can stand first.
\<close>

theorem fallback_list_not_relevance_sorted:
  "scoreAndRankEvents (removeDuplicateEvents (allEvents [romeResult])) ''zzz'' ''rome'' None \<noteq> []
   \<and> filter (\<lambda>event. js_gt (studentFriendlinessScore event) (Num (4 / 10)))
        (scoreAndRankEvents (removeDuplicateEvents (allEvents [romeResult])) ''zzz'' ''rome'' None) = []
   \<and> finalEvents [romeResult] ''zzz'' ''rome'' None 20
       = [scoredObject campusTour (Num (35 / 100)) (Num (4 / 10)) None,
          scoredObject quietEvening (Num (4 / 10)) (Num 0) None]
   \<and> \<not> sorted_wrt (\<lambda>a b. \<not> js_gt (relevanceScore b) (relevanceScore a))
         (finalEvents [romeResult] ''zzz'' ''rome'' None 20)"
  by code_simp

text \<open>
  Claim C8, amended. When the filter \<open>studentFriendlinessScore > 0.4\<close> leaves nothing of
  a non-empty scored list, \<open>finalEvents\<close> is the unfiltered scored list cut to
  \<open>maxResults\<close>, hence not empty when \<open>maxResults\<close> is at least 1; that list is in
  descending order of the combined score \<open>0.7 * relevance + 0.3 * studentFriendliness\<close>.
\<close>

theorem student_filter_falls_back:
  "scoreAndRankEvents (removeDuplicateEvents (allEvents rs)) q l t \<noteq> []
   \<and> filter (\<lambda>event. js_gt (studentFriendlinessScore event) (Num (4 / 10)))
        (scoreAndRankEvents (removeDuplicateEvents (allEvents rs)) q l t) = []
   \<longrightarrow> finalEvents rs q l t m
         = js_slice0 (scoreAndRankEvents (removeDuplicateEvents (allEvents rs)) q l t) m
       \<and> (1 \<le> m \<longrightarrow> finalEvents rs q l t m \<noteq> [])
       \<and> sorted_wrt (\<lambda>a b. \<not> js_gt (combinedScore b) (combinedScore a))
           (scoreAndRankEvents (removeDuplicateEvents (allEvents rs)) q l t)"
proof (intro impI conjI)
  let ?scored = "scoreAndRankEvents (removeDuplicateEvents (allEvents rs)) q l t"
  assume a: "?scored \<noteq> [] \<and> filter (\<lambda>event. js_gt (studentFriendlinessScore event) (Num (4 / 10))) ?scored = []"
  then have "removeDuplicateEvents (allEvents rs) \<noteq> []"
    by (simp add: scoreAndRankEvents_Nil_iff)
  then have "allEvents rs \<noteq> []"
    by (auto simp: removeDuplicateEvents_def)
  with a show final: "finalEvents rs q l t m = js_slice0 ?scored m"
    by (simp add: finalEvents_def Let_def)
  show "finalEvents rs q l t m \<noteq> []" if "1 \<le> m"
    using that a unfolding final by (simp add: js_slice0_def)
  show "sorted_wrt (\<lambda>a b. \<not> js_gt (combinedScore b) (combinedScore a)) ?scored"
    by (rule scoreAndRankEvents_sorted)
qed

theorem student_filter_falls_back_witness:
  "scoreAndRankEvents (removeDuplicateEvents (allEvents [romeResult])) ''zzz'' ''rome'' None
     = [scoredObject campusTour (Num (35 / 100)) (Num (4 / 10)) None,
        scoredObject quietEvening (Num (4 / 10)) (Num 0) None]
   \<and> filter (\<lambda>event. js_gt (studentFriendlinessScore event) (Num (4 / 10)))
        (scoreAndRankEvents (removeDuplicateEvents (allEvents [romeResult])) ''zzz'' ''rome'' None) = []
   \<and> finalEvents [romeResult] ''zzz'' ''rome'' None 1
       = [scoredObject campusTour (Num (35 / 100)) (Num (4 / 10)) None]
   \<and> finalEvents [romeResult] ''zzz'' ''rome'' None 1 \<noteq> []"
proof -
  have scored: "scoreAndRankEvents (removeDuplicateEvents (allEvents [romeResult])) ''zzz'' ''rome'' None
     = [scoredObject campusTour (Num (35 / 100)) (Num (4 / 10)) None,
        scoredObject quietEvening (Num (4 / 10)) (Num 0) None]"
    by code_simp
  have none: "filter (\<lambda>event. js_gt (studentFriendlinessScore event) (Num (4 / 10)))
        [scoredObject campusTour (Num (35 / 100)) (Num (4 / 10)) None,
         scoredObject quietEvening (Num (4 / 10)) (Num 0) None] = []"
    by (simp add: scoredObject_def)
  have hyp: "[scoredObject campusTour (Num (35 / 100)) (Num (4 / 10)) None,
        scoredObject quietEvening (Num (4 / 10)) (Num 0) None] \<noteq> []
     \<and> filter (\<lambda>event. js_gt (studentFriendlinessScore event) (Num (4 / 10)))
        [scoredObject campusTour (Num (35 / 100)) (Num (4 / 10)) None,
         scoredObject quietEvening (Num (4 / 10)) (Num 0) None] = []"
    using none by blast
  note fact = student_filter_falls_back [where rs = "[romeResult]" and q = "''zzz''"
      and l = "''rome''" and t = None and m = 1, unfolded scored, THEN mp, OF hyp]
  have cut: "js_slice0 [scoredObject campusTour (Num (35 / 100)) (Num (4 / 10)) None,
                    scoredObject quietEvening (Num (4 / 10)) (Num 0) None] 1
     = [scoredObject campusTour (Num (35 / 100)) (Num (4 / 10)) None]"
    by (simp add: js_slice0_def)
  from fact have "finalEvents [romeResult] ''zzz'' ''rome'' None 1
       = js_slice0 [scoredObject campusTour (Num (35 / 100)) (Num (4 / 10)) None,
                    scoredObject quietEvening (Num (4 / 10)) (Num 0) None] 1"
    by blast
  then have fin: "finalEvents [romeResult] ''zzz'' ''rome'' None 1
       = [scoredObject campusTour (Num (35 / 100)) (Num (4 / 10)) None]"
    unfolding cut .
  show ?thesis
    unfolding scored fin using none by blast
qed

end
